theory Spec2Isabelle
  imports Main "HOL-Library.Word"
begin

section \<open>Serial to TCP bridge (examples/serial\_to\_tcp\_bridge.js)\<close>

text \<open>
  The script is a set of event handlers over three pieces of mutable state: the serial
  port object, the set \<open>tcpClients\<close> of socket objects and the process itself. The
  embedding keeps one record for that state, one function per handler, and a trace of
  every call the handlers make on the outside world (console, serial port, sockets,
  server, process), in the order the calls are made.
\<close>

subsection \<open>Command line: \<open>getArg\<close>\<close>

text \<open>
  \<open>Array.prototype.indexOf\<close>: the index of the first element equal to the argument,
  \<open>-1\<close> when there is none.
\<close>

fun indexOf :: "'a list \<Rightarrow> 'a \<Rightarrow> int" where
  "indexOf [] x = - 1"
| "indexOf (y # ys) x =
     (if y = x then 0
      else (let i = indexOf ys x in if i = - 1 then - 1 else i + 1))"

text \<open>
  \<open>args[i]\<close>: reading an array out of range gives \<open>undefined\<close>, here \<open>None\<close>.
\<close>

definition js_index :: "'a list \<Rightarrow> int \<Rightarrow> 'a option" where
  "js_index xs i = (if 0 \<le> i \<and> i < int (length xs) then Some (xs ! nat i) else None)"

text \<open>
  Truthiness of an element of \<open>process.argv\<close> (always a string) or \<open>undefined\<close>: only
  \<open>undefined\<close> and the empty string are falsy.
\<close>

definition truthy :: "string option \<Rightarrow> bool" where
  "truthy v = (case v of None \<Rightarrow> False | Some str \<Rightarrow> str \<noteq> [])"

text \<open>
  \<^verbatim>\<open>const getArg = (flag, defaultValue) => {
    const index = args.indexOf(flag);
    return index !== -1 && args[index + 1] ? args[index + 1] : defaultValue; };\<close>
  The argument list \<open>args\<close> is a global of the script; it is a parameter here.
\<close>

definition getArg :: "string list \<Rightarrow> string \<Rightarrow> string \<Rightarrow> string" where
  "getArg args flag defaultValue =
     (let index = indexOf args flag in
      if index \<noteq> - 1 \<and> truthy (js_index args (index + 1))
      then (case js_index args (index + 1) of Some v \<Rightarrow> v | None \<Rightarrow> defaultValue)
      else defaultValue)"

text \<open>
  The same function in the words of the specification: the element right after the
  first occurrence of the flag when it exists and is not empty, the default otherwise.
\<close>

definition getArg_spec :: "string list \<Rightarrow> string \<Rightarrow> string \<Rightarrow> string" where
  "getArg_spec args flag defaultValue =
     (case dropWhile (\<lambda>a. a \<noteq> flag) args of
        f # v # rest \<Rightarrow> if v \<noteq> [] then v else defaultValue
      | _ \<Rightarrow> defaultValue)"

subsection \<open>\<open>parseInt\<close> and number rendering\<close>

text \<open>
  \<open>parseInt(string)\<close> without a radix: leading white space is skipped, one sign is
  read, a \<open>0x\<close>/\<open>0X\<close> prefix selects radix 16, and the longest prefix of digits is
  converted; no digit at all gives \<open>NaN\<close> (\<open>None\<close>). The result is exact here; the
  JavaScript number is the nearest double, which is the same integer up to \<open>2^53\<close>.
  Only the ASCII white space characters are modelled.
\<close>

definition is_ws :: "char \<Rightarrow> bool" where
  "is_ws c = (c \<in> set [CHR '' '', CHR 0x09, CHR 0x0A, CHR 0x0B, CHR 0x0C, CHR 0x0D])"

definition digit_val :: "char \<Rightarrow> nat option" where
  "digit_val c =
     (let n = (of_char c :: nat) in
      if 48 \<le> n \<and> n \<le> 57 then Some (n - 48)
      else if 97 \<le> n \<and> n \<le> 122 then Some (n - 87)
      else if 65 \<le> n \<and> n \<le> 90 then Some (n - 55)
      else None)"

definition is_digit :: "nat \<Rightarrow> char \<Rightarrow> bool" where
  "is_digit radix c = (case digit_val c of None \<Rightarrow> False | Some v \<Rightarrow> v < radix)"

definition digits_value :: "nat \<Rightarrow> string \<Rightarrow> nat" where
  "digits_value radix ds =
     foldl (\<lambda>acc c. acc * radix + (case digit_val c of None \<Rightarrow> 0 | Some v \<Rightarrow> v)) 0 ds"

definition parseInt :: "string \<Rightarrow> int option" where
  "parseInt str =
     (let s1 = dropWhile is_ws str;
          negative = (take 1 s1 = ''-'');
          s2 = (if take 1 s1 = ''-'' \<or> take 1 s1 = ''+'' then drop 1 s1 else s1);
          hex = (take 2 s2 = ''0x'' \<or> take 2 s2 = ''0X'');
          radix = (if hex then 16 else 10);
          s3 = (if hex then drop 2 s2 else s2);
          ds = takeWhile (is_digit radix) s3
      in if ds = [] then None
         else Some ((if negative then - 1 else 1) * int (digits_value radix ds)))"

text \<open>Decimal rendering of a number inside a template string.\<close>

fun show_nat :: "nat \<Rightarrow> string" where
  "show_nat n =
     (if n < 10 then [''0123456789'' ! n]
      else show_nat (n div 10) @ [''0123456789'' ! (n mod 10)])"

declare show_nat.simps [simp del]

definition show_number :: "int option \<Rightarrow> string" where
  "show_number v =
     (case v of
        None \<Rightarrow> ''NaN''
      | Some i \<Rightarrow> if i < 0 then ''-'' @ show_nat (nat (- i)) else show_nat (nat i))"

subsection \<open>Configuration\<close>

text \<open>
  \<^verbatim>\<open>const serialPort = getArg('--serial-port', '/dev/ttyUSB0');
const tcpHost = getArg('--tcp-host', '0.0.0.0');
const tcpPort = parseInt(getArg('--tcp-port', '5000'));\<close>
  and the options of the \<open>SerialPort\<close> constructor, \<open>path\<close>, \<open>baudRate: 115200\<close>,
  \<open>autoOpen: false\<close>.
\<close>

record config =
  serialPort :: string
  tcpHost :: string
  tcpPort :: "int option"
  path :: string
  baudRate :: nat
  autoOpen :: bool

definition configure :: "string list \<Rightarrow> config" where
  "configure args =
     \<lparr> serialPort = getArg args ''--serial-port'' ''/dev/ttyUSB0'',
       tcpHost = getArg args ''--tcp-host'' ''0.0.0.0'',
       tcpPort = parseInt (getArg args ''--tcp-port'' ''5000''),
       path = getArg args ''--serial-port'' ''/dev/ttyUSB0'',
       baudRate = 115200,
       autoOpen = False \<rparr>"

subsection \<open>Sockets\<close>

text \<open>
  A chunk is the \<open>Buffer\<close> handed to a \<open>data\<close> listener. A socket object is owned by
  the \<open>net\<close> library; the script reads \<open>remoteAddress\<close>, \<open>remotePort\<close> and
  \<open>destroyed\<close> and calls \<open>write\<close> and \<open>destroy\<close>, both inside \<open>try\<close> blocks. What the
  library does on these calls is a parameter of the socket: \<open>write_throws\<close> holds the
  message of the error a call of \<open>write\<close> throws (\<open>None\<close>: the call returns), and
  \<open>destroy_throws\<close> says whether \<open>destroy\<close> throws. \<open>received\<close> lists the chunks that
  \<open>write\<close> has accepted, oldest first.
\<close>

type_synonym chunk = "8 word list"

type_synonym sock_id = nat

record socket =
  remoteAddress :: "string option"
  remotePort :: "nat option"
  destroyed :: bool
  write_throws :: "string option"
  destroy_throws :: bool
  received :: "chunk list"

definition sock_write :: "socket \<Rightarrow> chunk \<Rightarrow> string + socket" where
  "sock_write k data =
     (case write_throws k of
        Some msg \<Rightarrow> Inl msg
      | None \<Rightarrow> Inr (k\<lparr>received := received k @ [data]\<rparr>))"

definition sock_destroy :: "socket \<Rightarrow> unit + socket" where
  "sock_destroy k = (if destroy_throws k then Inl () else Inr (k\<lparr>destroyed := True\<rparr>))"

text \<open>A socket as the server hands it to the connection listener.\<close>

definition new_socket :: "string \<Rightarrow> nat \<Rightarrow> socket" where
  "new_socket addr port =
     \<lparr> remoteAddress = Some addr, remotePort = Some port, destroyed = False,
       write_throws = None, destroy_throws = False, received = [] \<rparr>"

text \<open>The placeholder at every identity that no socket object has yet.\<close>

definition no_socket :: socket where
  "no_socket =
     \<lparr> remoteAddress = None, remotePort = None, destroyed = True,
       write_throws = None, destroy_throws = False, received = [] \<rparr>"

subsection \<open>State of the bridge and the calls it makes\<close>

datatype effect =
    ConsoleLog string
  | ConsoleError string
  | ConsoleWarn string
  | SerialWrite chunk
  | SerialClose
  | SocketWrite sock_id chunk
  | SocketDestroy sock_id
  | ServerClose
  | ProcessExit int

text \<open>
  \<open>tcpClients\<close> is the \<open>Set\<close> of socket objects, as the list of their identities in
  insertion order (the order a \<open>Set\<close> is iterated in); \<open>sockets\<close> is the store of
  the socket objects; \<open>listeners\<close> holds, for each socket the connection listener has
  run on, the \<open>clientAddr\<close> string its three listeners closed over; \<open>trace\<close> is every
  call made so far; \<open>exited\<close> is the status \<open>process.exit\<close> was called with.
\<close>

record bridge =
  cfg :: config
  isOpen :: bool
  tcpClients :: "sock_id list"
  sockets :: "sock_id \<Rightarrow> socket"
  listeners :: "sock_id \<rightharpoonup> string"
  trace :: "effect list"
  exited :: "int option"

definition emit :: "effect \<Rightarrow> bridge \<Rightarrow> bridge" where
  "emit e s = s\<lparr>trace := trace s @ [e]\<rparr>"

definition process_exit :: "int \<Rightarrow> bridge \<Rightarrow> bridge" where
  "process_exit code s = (emit (ProcessExit code) s)\<lparr>exited := Some code\<rparr>"

text \<open>\<open>Set.prototype.add\<close> and \<open>Set.prototype.delete\<close>.\<close>

definition set_add :: "sock_id \<Rightarrow> sock_id list \<Rightarrow> sock_id list" where
  "set_add c cs = (if c \<in> set cs then cs else cs @ [c])"

definition set_delete :: "sock_id \<Rightarrow> sock_id list \<Rightarrow> sock_id list" where
  "set_delete c cs = removeAll c cs"

text \<open>A value inside a template string; \<open>undefined\<close> prints as its name.\<close>

definition show_string :: "string option \<Rightarrow> string" where
  "show_string v = (case v of None \<Rightarrow> ''undefined'' | Some str \<Rightarrow> str)"

definition show_port :: "nat option \<Rightarrow> string" where
  "show_port v = (case v of None \<Rightarrow> ''undefined'' | Some n \<Rightarrow> show_nat n)"

text \<open>
  The state the top level of the script leaves when the event loop takes over: the three
  start-up lines on the console, a serial port that is not open yet and an empty client
  set. The calls of \<open>open\<close> and \<open>listen\<close> made there are answered by the events
  of the next sections.
\<close>

definition startup :: "string list \<Rightarrow> bridge" where
  "startup args =
     \<lparr> cfg = configure args,
       isOpen = False,
       tcpClients = [],
       sockets = (\<lambda>c. no_socket),
       listeners = Map.empty,
       trace =
         [ConsoleLog ''Starting Serial to TCP Bridge'',
          ConsoleLog (''Serial: '' @ serialPort (configure args)),
          ConsoleLog (''TCP: '' @ tcpHost (configure args) @ '':''
                       @ show_number (tcpPort (configure args)))],
       exited = None \<rparr>"

subsection \<open>Serial port listeners\<close>

text \<open>
  The \<open>for ... of tcpClients\<close> loop of the \<open>data\<close> listener, with \<open>deadClients\<close> as
  accumulator. A destroyed client is skipped; a \<open>write\<close> that throws is reported and
  the client is pushed on \<open>deadClients\<close>.
\<close>

fun write_loop :: "chunk \<Rightarrow> sock_id list \<Rightarrow> sock_id list \<Rightarrow> bridge \<Rightarrow> sock_id list \<times> bridge" where
  "write_loop data [] deadClients s = (deadClients, s)"
| "write_loop data (client # rest) deadClients s =
     (if \<not> destroyed (sockets s client) then
        (case sock_write (sockets s client) data of
           Inr k \<Rightarrow>
             write_loop data rest deadClients
               (emit (SocketWrite client data) (s\<lparr>sockets := (sockets s)(client := k)\<rparr>))
         | Inl msg \<Rightarrow>
             write_loop data rest (deadClients @ [client])
               (emit (ConsoleError (''Error writing to TCP client: '' @ msg))
                  (emit (SocketWrite client data) s)))
      else write_loop data rest deadClients s)"

text \<open>\<^verbatim>\<open>try { client.destroy(); } catch (e) { /* Ignore */ }\<close>\<close>

definition try_destroy :: "sock_id \<Rightarrow> bridge \<Rightarrow> bridge" where
  "try_destroy client s =
     (case sock_destroy (sockets s client) of
        Inr k \<Rightarrow> emit (SocketDestroy client) (s\<lparr>sockets := (sockets s)(client := k)\<rparr>)
      | Inl e \<Rightarrow> emit (SocketDestroy client) s)"

text \<open>The \<open>deadClients.forEach\<close> of the \<open>data\<close> listener.\<close>

fun remove_dead :: "sock_id list \<Rightarrow> bridge \<Rightarrow> bridge" where
  "remove_dead [] s = s"
| "remove_dead (client # rest) s =
     remove_dead rest
       (try_destroy client (s\<lparr>tcpClients := set_delete client (tcpClients s)\<rparr>))"

definition serial_on_data :: "chunk \<Rightarrow> bridge \<Rightarrow> bridge" where
  "serial_on_data data s =
     (if length (tcpClients s) > 0 then
        (case write_loop data (tcpClients s) [] s of
           (deadClients, s') \<Rightarrow> remove_dead deadClients s')
      else s)"

definition serial_on_error :: "string \<Rightarrow> bridge \<Rightarrow> bridge" where
  "serial_on_error msg s = emit (ConsoleError (''Serial port error: '' @ msg)) s"

definition serial_on_close :: "bridge \<Rightarrow> bridge" where
  "serial_on_close s = emit (ConsoleLog ''Serial port closed'') s"

text \<open>
  The callback of \<open>serialPortInstance.open\<close>; \<open>process.exit\<close> does not return, so the
  second report is made on success only.
\<close>

definition serial_open_callback :: "string option \<Rightarrow> bridge \<Rightarrow> bridge" where
  "serial_open_callback error s =
     (case error of
        Some msg \<Rightarrow>
          process_exit 1 (emit (ConsoleError (''Failed to open serial port: '' @ msg)) s)
      | None \<Rightarrow> emit (ConsoleLog (''Serial port opened: '' @ serialPort (cfg s))) s)"

subsection \<open>Server and socket listeners\<close>

definition socket_on_data :: "chunk \<Rightarrow> bridge \<Rightarrow> bridge" where
  "socket_on_data data s =
     (if isOpen s then emit (SerialWrite data) s
      else emit (ConsoleWarn ''Serial port not open, dropping TCP data'') s)"

definition socket_on_error :: "string \<Rightarrow> string \<Rightarrow> bridge \<Rightarrow> bridge" where
  "socket_on_error clientAddr msg s =
     emit (ConsoleError (''TCP client error ('' @ clientAddr @ ''): '' @ msg)) s"

definition socket_on_close :: "sock_id \<Rightarrow> string \<Rightarrow> bridge \<Rightarrow> bridge" where
  "socket_on_close socket clientAddr s =
     (emit (ConsoleLog (''TCP client disconnected: '' @ clientAddr)) s)
       \<lparr>tcpClients := set_delete socket (tcpClients s)\<rparr>"

text \<open>
  The connection listener given to \<open>createServer\<close>. The server creates one socket
  object per connection, so a socket gets its three listeners once.
\<close>

definition server_connection :: "sock_id \<Rightarrow> bridge \<Rightarrow> bridge" where
  "server_connection socket s =
     (let clientAddr = show_string (remoteAddress (sockets s socket)) @ '':''
                        @ show_port (remotePort (sockets s socket))
      in (emit (ConsoleLog (''TCP client connected: '' @ clientAddr)) s)
           \<lparr>tcpClients := set_add socket (tcpClients s),
            listeners := (listeners s)(socket \<mapsto> clientAddr)\<rparr>)"

definition server_on_error :: "string \<Rightarrow> bridge \<Rightarrow> bridge" where
  "server_on_error msg s = emit (ConsoleError (''TCP server error: '' @ msg)) s"

text \<open>The callback of \<open>server.listen\<close>, with the two fields of \<open>server.address()\<close>.\<close>

definition server_listen_callback :: "string \<Rightarrow> nat \<Rightarrow> bridge \<Rightarrow> bridge" where
  "server_listen_callback address port s =
     emit (ConsoleLog (''Connect to this bridge using: meshcli -t '' @ address @ '' -p ''
                        @ show_nat port @ '' <command>''))
       (emit (ConsoleLog (''TCP server started on '' @ address @ '':'' @ show_nat port)) s)"

subsection \<open>Shutdown\<close>

text \<open>
  The two signal listeners have the same body. \<open>serialPortInstance.close()\<close> and
  \<open>server.close()\<close> are recorded as calls; what they do to their objects is not seen by
  the script, which exits in the same turn. The \<open>tcpClients.forEach\<close> comes first.
\<close>

fun destroy_loop :: "sock_id list \<Rightarrow> bridge \<Rightarrow> bridge" where
  "destroy_loop [] s = s"
| "destroy_loop (client # rest) s = destroy_loop rest (try_destroy client s)"

definition process_on_SIGINT :: "bridge \<Rightarrow> bridge" where
  "process_on_SIGINT s =
     process_exit 0
       (emit ServerClose
          (destroy_loop (tcpClients s)
             (emit SerialClose
                (emit (ConsoleLog (CHR 0x0A # ''Shutting down...'')) s))))"

definition process_on_SIGTERM :: "bridge \<Rightarrow> bridge" where
  "process_on_SIGTERM s =
     process_exit 0
       (emit ServerClose
          (destroy_loop (tcpClients s)
             (emit SerialClose
                (emit (ConsoleLog (CHR 0x0A # ''Shutting down...'')) s))))"

subsection \<open>The event loop\<close>

text \<open>
  One event per listener of the script, and three events for what the libraries do to
  the objects they own between two listeners: a socket object is created, the flags of
  a socket change, the serial port opens or closes. A socket event reaches the
  listeners only after the connection listener has registered them. No listener runs
  after \<open>process.exit\<close>.
\<close>

datatype event =
    OnSerialData chunk
  | OnSerialError string
  | OnSerialClose
  | OnSerialOpen "string option"
  | OnConnection sock_id
  | OnSocketData sock_id chunk
  | OnSocketError sock_id string
  | OnSocketClose sock_id
  | OnServerError string
  | OnListening string nat
  | OnSIGINT
  | OnSIGTERM
  | SocketCreated sock_id string nat
  | SocketChanged sock_id bool "string option" bool
  | SerialChanged bool

definition step :: "event \<Rightarrow> bridge \<Rightarrow> bridge" where
  "step ev s =
     (if exited s \<noteq> None then s
      else
        (case ev of
           OnSerialData data \<Rightarrow> serial_on_data data s
         | OnSerialError msg \<Rightarrow> serial_on_error msg s
         | OnSerialClose \<Rightarrow> serial_on_close s
         | OnSerialOpen error \<Rightarrow> serial_open_callback error s
         | OnConnection c \<Rightarrow> server_connection c s
         | OnSocketData c data \<Rightarrow>
             (case listeners s c of None \<Rightarrow> s | Some clientAddr \<Rightarrow> socket_on_data data s)
         | OnSocketError c msg \<Rightarrow>
             (case listeners s c of None \<Rightarrow> s
              | Some clientAddr \<Rightarrow> socket_on_error clientAddr msg s)
         | OnSocketClose c \<Rightarrow>
             (case listeners s c of None \<Rightarrow> s
              | Some clientAddr \<Rightarrow> socket_on_close c clientAddr s)
         | OnServerError msg \<Rightarrow> server_on_error msg s
         | OnListening address port \<Rightarrow> server_listen_callback address port s
         | OnSIGINT \<Rightarrow> process_on_SIGINT s
         | OnSIGTERM \<Rightarrow> process_on_SIGTERM s
         | SocketCreated c addr port \<Rightarrow> s\<lparr>sockets := (sockets s)(c := new_socket addr port)\<rparr>
         | SocketChanged c d w t \<Rightarrow>
             s\<lparr>sockets := (sockets s)
                  (c := (sockets s c)\<lparr>destroyed := d, write_throws := w, destroy_throws := t\<rparr>)\<rparr>
         | SerialChanged b \<Rightarrow> s\<lparr>isOpen := b\<rparr>))"

fun run :: "event list \<Rightarrow> bridge \<Rightarrow> bridge" where
  "run [] s = s"
| "run (ev # evs) s = run evs (step ev s)"

subsection \<open>Vocabulary of the statements\<close>

text \<open>
  A client the write loop marks dead: it is not destroyed, so \<open>write\<close> is called, and the
  call throws.
\<close>

definition write_fails :: "(sock_id \<Rightarrow> socket) \<Rightarrow> sock_id \<Rightarrow> bool" where
  "write_fails f c = (\<not> destroyed (f c) \<and> write_throws (f c) \<noteq> None)"

text \<open>The calls one turn of the write loop makes for a client.\<close>

definition write_calls :: "chunk \<Rightarrow> (sock_id \<Rightarrow> socket) \<Rightarrow> sock_id \<Rightarrow> effect list" where
  "write_calls data f c =
     (if destroyed (f c) then []
      else (case write_throws (f c) of
              None \<Rightarrow> [SocketWrite c data]
            | Some msg \<Rightarrow>
                [SocketWrite c data, ConsoleError (''Error writing to TCP client: '' @ msg)]))"

text \<open>A call of \<open>destroy\<close> on a socket.\<close>

definition is_destroy :: "effect \<Rightarrow> bool" where
  "is_destroy e = (case e of SocketDestroy c \<Rightarrow> True | _ \<Rightarrow> False)"

text \<open>The same state with \<open>destroy\<close> throwing on exactly the sockets \<open>f\<close> selects.\<close>

definition with_destroy_errors :: "(sock_id \<Rightarrow> bool) \<Rightarrow> bridge \<Rightarrow> bridge" where
  "with_destroy_errors f s = s\<lparr>sockets := (\<lambda>c. (sockets s c)\<lparr>destroy_throws := f c\<rparr>)\<rparr>"

subsection \<open>Two scenarios\<close>

text \<open>
  A bridge with an open serial port and two clients, the first of which throws on
  \<open>write\<close> and on \<open>destroy\<close>; and a bridge whose only client is already destroyed.
\<close>

definition two_clients :: bridge where
  "two_clients =
     run [SerialChanged True, OnSerialOpen None, OnListening ''0.0.0.0'' 5000,
          SocketCreated 11 ''10.0.0.1'' 40001, OnConnection 11,
          SocketCreated 12 ''10.0.0.2'' 40002, OnConnection 12,
          SocketChanged 11 False (Some ''write EPIPE'') True]
       (startup [])"

definition closed_client :: bridge where
  "closed_client =
     run [SocketCreated 11 ''10.0.0.1'' 40001, OnConnection 11, SocketChanged 11 True None False]
       (startup [])"

section \<open>Properties\<close>

subsection \<open>Command line\<close>

lemma indexOf_absent: "x \<notin> set xs \<Longrightarrow> indexOf xs x = - 1"
  by (induction xs) (auto simp: Let_def)

lemma indexOf_present: "x \<in> set xs \<Longrightarrow> 0 \<le> indexOf xs x \<and> indexOf xs x < int (length xs)"
  by (induction xs) (auto simp: Let_def)

lemma indexOf_minus_one: "indexOf xs x = - 1 \<longleftrightarrow> x \<notin> set xs"
  using indexOf_absent [of x xs] indexOf_present [of x xs] by auto

lemma js_index_Cons: "0 \<le> i \<Longrightarrow> js_index (y # ys) (i + 1) = js_index ys i"
  by (auto simp: js_index_def nat_add_distrib)

lemma js_index_next:
  "x \<in> set xs \<Longrightarrow>
   js_index xs (indexOf xs x + 1) =
     (case dropWhile (\<lambda>a. a \<noteq> x) xs of f # v # rest \<Rightarrow> Some v | _ \<Rightarrow> None)"
proof (induction xs)
  case Nil
  then show ?case by simp
next
  case (Cons y ys)
  show ?case
  proof (cases "y = x")
    case True
    then show ?thesis by (cases ys) (simp_all add: js_index_def)
  next
    case False
    with Cons.prems have mem: "x \<in> set ys" by simp
    then have nn: "0 \<le> indexOf ys x" and ne: "indexOf ys x \<noteq> - 1"
      using indexOf_present [of x ys] by auto
    from False ne have "indexOf (y # ys) x = indexOf ys x + 1"
      by (simp add: Let_def)
    moreover have "0 \<le> indexOf ys x + 1" using nn by simp
    ultimately have "js_index (y # ys) (indexOf (y # ys) x + 1) = js_index ys (indexOf ys x + 1)"
      using js_index_Cons [of "indexOf ys x + 1" y ys] by simp
    with Cons.IH [OF mem] False show ?thesis by simp
  qed
qed

lemma getArg_refines: "getArg args flag d = getArg_spec args flag d"
proof (cases "flag \<in> set args")
  case True
  then have "indexOf args flag \<noteq> - 1" by (simp add: indexOf_minus_one)
  then show ?thesis
    using js_index_next [OF True] True
    by (auto simp: getArg_def getArg_spec_def truthy_def Let_def split: list.splits)
next
  case False
  then have "dropWhile (\<lambda>a. a \<noteq> flag) args = []" by auto
  with False show ?thesis
    by (simp add: getArg_def getArg_spec_def indexOf_absent del: dropWhile_eq_Nil_conv)
qed

lemma dropWhile_absent:
  "flag \<notin> set pre \<Longrightarrow>
   dropWhile (\<lambda>a. a \<noteq> flag) (pre @ xs) = dropWhile (\<lambda>a. a \<noteq> flag) xs"
  by (induction pre) auto

lemma getArg_after_flag:
  "flag \<notin> set pre \<Longrightarrow>
   getArg_spec (pre @ flag # v # post) flag d = (if v \<noteq> [] then v else d)"
  by (simp add: getArg_spec_def dropWhile_absent)

lemma getArg_flag_last:
  "flag \<notin> set pre \<Longrightarrow> getArg_spec (pre @ [flag]) flag d = d"
  by (simp add: getArg_spec_def dropWhile_absent)

lemma getArg_flag_absent:
  "flag \<notin> set args \<Longrightarrow> getArg_spec args flag d = d"
proof -
  assume "flag \<notin> set args"
  then have "dropWhile (\<lambda>a. a \<noteq> flag) args = []" by auto
  then show ?thesis unfolding getArg_spec_def by (simp del: dropWhile_eq_Nil_conv)
qed

lemma parseInt_5000: "parseInt ''5000'' = Some 5000"
  by code_simp

text \<open>
  C10. For every argument list, \<open>getArg\<close> returns the element right after the first
  occurrence of the flag when that element exists and is not empty, and the default
  otherwise: when the flag is absent, when it is the last argument, and when the element
  after it is the empty string. So without the flags the serial path is
  \<open>/dev/ttyUSB0\<close>, the bind host \<open>0.0.0.0\<close> and the TCP port \<open>5000\<close>; the baud rate is
  \<open>115200\<close> whatever the arguments.
\<close>

theorem getArg_defaults:
  "getArg args flag d = getArg_spec args flag d
   \<and> (flag \<notin> set pre \<longrightarrow> getArg (pre @ flag # v # post) flag d = (if v \<noteq> [] then v else d))
   \<and> (flag \<notin> set pre \<longrightarrow> getArg (pre @ [flag]) flag d = d)
   \<and> (flag \<notin> set args \<longrightarrow> getArg args flag d = d)
   \<and> (''--serial-port'' \<notin> set args \<longrightarrow> serialPort (configure args) = ''/dev/ttyUSB0''
                                          \<and> path (configure args) = ''/dev/ttyUSB0'')
   \<and> (''--tcp-host'' \<notin> set args \<longrightarrow> tcpHost (configure args) = ''0.0.0.0'')
   \<and> (''--tcp-port'' \<notin> set args \<longrightarrow> tcpPort (configure args) = Some 5000)
   \<and> baudRate (configure args) = 115200"
  by (simp add: getArg_refines getArg_after_flag getArg_flag_last getArg_flag_absent
      configure_def parseInt_5000)

theorem getArg_defaults_witness:
  "getArg [''--tcp-host'', ''localhost'', ''--serial-port''] ''--tcp-host'' ''0.0.0.0'' = ''localhost''
   \<and> getArg [''--tcp-host'', ''localhost'', ''--serial-port''] ''--serial-port'' ''/dev/ttyUSB0''
       = ''/dev/ttyUSB0''
   \<and> getArg [''--tcp-host'', ''localhost'', ''--serial-port''] ''--tcp-port'' ''5000'' = ''5000''
   \<and> tcpPort (configure [''--tcp-host'', ''localhost'', ''--serial-port'']) = Some 5000
   \<and> tcpHost (configure []) = ''0.0.0.0''
   \<and> serialPort (configure []) = ''/dev/ttyUSB0''"
  using getArg_defaults [of "[''--tcp-host'', ''localhost'', ''--serial-port'']" "''--tcp-host''"
      "''0.0.0.0''" "[]" "''localhost''" "[''--serial-port'']"]
    getArg_defaults [of "[''--tcp-host'', ''localhost'', ''--serial-port'']" "''--serial-port''"
      "''/dev/ttyUSB0''" "[''--tcp-host'', ''localhost'']" "''x''" "[]"]
    getArg_defaults [of "[''--tcp-host'', ''localhost'', ''--serial-port'']" "''--tcp-port''"
      "''5000''" "[]" "''x''" "[]"]
    getArg_defaults [of "[]" "''--tcp-port''" "''5000''" "[]" "''x''" "[]"]
  by (simp add: getArg_spec_def)

subsection \<open>The write loop\<close>

lemma write_fails_received [simp]:
  "write_fails (f(c := (f c)\<lparr>received := r\<rparr>)) = write_fails f"
  by (rule ext) (simp add: write_fails_def)

lemma write_calls_received [simp]:
  "write_calls data (f(c := (f c)\<lparr>received := r\<rparr>)) = write_calls data f"
  by (rule ext) (simp add: write_calls_def)

lemma write_fails_received' [simp]:
  "write_fails (\<lambda>a. if a = c then (f c)\<lparr>received := r\<rparr> else f a) = write_fails f"
  by (rule ext) (simp add: write_fails_def)

lemma write_calls_received' [simp]:
  "write_calls data (\<lambda>a. if a = c then (f c)\<lparr>received := r\<rparr> else f a) = write_calls data f"
  by (rule ext) (simp add: write_calls_def)

lemma write_loop_Cons:
  "write_loop data (c # cs) dead s =
     (if destroyed (sockets s c) then write_loop data cs dead s
      else (case write_throws (sockets s c) of
              None \<Rightarrow>
                write_loop data cs dead
                  (emit (SocketWrite c data)
                     (s\<lparr>sockets := (sockets s)
                          (c := (sockets s c)\<lparr>received := received (sockets s c) @ [data]\<rparr>)\<rparr>))
            | Some msg \<Rightarrow>
                write_loop data cs (dead @ [c])
                  (emit (ConsoleError (''Error writing to TCP client: '' @ msg))
                     (emit (SocketWrite c data) s))))"
  by (simp add: sock_write_def split: option.splits)

lemma write_loop_dead:
  "fst (write_loop data cs dead s) = dead @ filter (write_fails (sockets s)) cs"
proof (induction cs arbitrary: dead s)
  case Nil
  then show ?case by simp
next
  case (Cons c cs)
  show ?case
    unfolding write_loop_Cons
    by (simp add: Cons.IH write_fails_def [of "sockets s" c] emit_def split: option.splits)
qed

lemma write_loop_trace:
  "trace (snd (write_loop data cs dead s)) = trace s @ concat (map (write_calls data (sockets s)) cs)"
proof (induction cs arbitrary: dead s)
  case Nil
  then show ?case by simp
next
  case (Cons c cs)
  show ?case
    unfolding write_loop_Cons
    by (simp add: Cons.IH write_calls_def [of data "sockets s" c] emit_def split: option.splits)
qed

lemma write_loop_frame:
  "tcpClients (snd (write_loop data cs dead s)) = tcpClients s"
  "isOpen (snd (write_loop data cs dead s)) = isOpen s"
  "exited (snd (write_loop data cs dead s)) = exited s"
  "listeners (snd (write_loop data cs dead s)) = listeners s"
  "cfg (snd (write_loop data cs dead s)) = cfg s"
proof (induction cs arbitrary: dead s)
  case Nil
  { case 1 show ?case by simp }
  { case 2 show ?case by simp }
  { case 3 show ?case by simp }
  { case 4 show ?case by simp }
  { case 5 show ?case by simp }
next
  case (Cons c cs)
  { case 1 show ?case unfolding write_loop_Cons by (simp add: Cons.IH emit_def split: option.splits) }
  { case 2 show ?case unfolding write_loop_Cons by (simp add: Cons.IH emit_def split: option.splits) }
  { case 3 show ?case unfolding write_loop_Cons by (simp add: Cons.IH emit_def split: option.splits) }
  { case 4 show ?case unfolding write_loop_Cons by (simp add: Cons.IH emit_def split: option.splits) }
  { case 5 show ?case unfolding write_loop_Cons by (simp add: Cons.IH emit_def split: option.splits) }
qed

lemma write_loop_sockets:
  "distinct cs \<Longrightarrow>
   sockets (snd (write_loop data cs dead s)) c =
     (if c \<in> set cs \<and> \<not> destroyed (sockets s c) \<and> write_throws (sockets s c) = None
      then (sockets s c)\<lparr>received := received (sockets s c) @ [data]\<rparr>
      else sockets s c)"
proof (induction cs arbitrary: dead s c)
  case Nil
  then show ?case by simp
next
  case (Cons x cs)
  then have d: "distinct cs" and nx: "x \<notin> set cs" by simp_all
  show ?case
    unfolding write_loop_Cons using nx
    by (auto simp: Cons.IH [OF d] emit_def split: option.splits)
qed

lemma write_loop_flags:
  "destroyed (sockets (snd (write_loop data cs dead s)) c) = destroyed (sockets s c)"
  "write_throws (sockets (snd (write_loop data cs dead s)) c) = write_throws (sockets s c)"
  "destroy_throws (sockets (snd (write_loop data cs dead s)) c) = destroy_throws (sockets s c)"
proof (induction cs arbitrary: dead s)
  case Nil
  { case 1 show ?case by simp }
  { case 2 show ?case by simp }
  { case 3 show ?case by simp }
next
  case (Cons x cs)
  { case 1 show ?case unfolding write_loop_Cons by (simp add: Cons.IH emit_def split: option.splits) }
  { case 2 show ?case unfolding write_loop_Cons by (simp add: Cons.IH emit_def split: option.splits) }
  { case 3 show ?case unfolding write_loop_Cons by (simp add: Cons.IH emit_def split: option.splits) }
qed

lemma write_loop_received_subset:
  "set (received (sockets (snd (write_loop data cs dead s)) c))
     \<subseteq> set (received (sockets s c)) \<union> {data}"
proof (induction cs arbitrary: dead s)
  case Nil
  then show ?case by auto
next
  case (Cons x cs)
  have sub: "\<And>A B C. A \<subseteq> B \<Longrightarrow> B \<subseteq> C \<Longrightarrow> A \<subseteq> (C :: chunk set)" by blast
  show ?case
    unfolding write_loop_Cons
    by (auto simp: emit_def split: option.splits if_splits intro!: sub [OF Cons.IH])
qed

subsection \<open>Destroying sockets\<close>

lemma try_destroy_frame:
  "tcpClients (try_destroy c s) = tcpClients s"
  "isOpen (try_destroy c s) = isOpen s"
  "exited (try_destroy c s) = exited s"
  "listeners (try_destroy c s) = listeners s"
  "cfg (try_destroy c s) = cfg s"
  "trace (try_destroy c s) = trace s @ [SocketDestroy c]"
  by (simp_all add: try_destroy_def sock_destroy_def emit_def)

lemma try_destroy_sockets:
  "sockets (try_destroy c s) x =
     (if x = c \<and> \<not> destroy_throws (sockets s c) then (sockets s c)\<lparr>destroyed := True\<rparr>
      else sockets s x)"
  by (simp add: try_destroy_def sock_destroy_def emit_def)

lemma try_destroy_fields:
  "received (sockets (try_destroy c s) x) = received (sockets s x)"
  "write_throws (sockets (try_destroy c s) x) = write_throws (sockets s x)"
  "destroy_throws (sockets (try_destroy c s) x) = destroy_throws (sockets s x)"
  by (simp_all add: try_destroy_sockets)

lemma remove_dead_tcpClients:
  "tcpClients (remove_dead dead s) = filter (\<lambda>c. c \<notin> set dead) (tcpClients s)"
proof (induction dead arbitrary: s)
  case Nil
  then show ?case by simp
next
  case (Cons c dead)
  show ?case
    by (auto simp: Cons.IH try_destroy_frame set_delete_def removeAll_filter_not_eq
        intro: filter_cong)
qed

lemma remove_dead_trace:
  "trace (remove_dead dead s) = trace s @ map SocketDestroy dead"
  by (induction dead arbitrary: s) (simp_all add: try_destroy_frame)

lemma remove_dead_frame:
  "isOpen (remove_dead dead s) = isOpen s"
  "exited (remove_dead dead s) = exited s"
  "listeners (remove_dead dead s) = listeners s"
  "cfg (remove_dead dead s) = cfg s"
  by (induction dead arbitrary: s) (simp_all add: try_destroy_frame)

lemma remove_dead_fields:
  "received (sockets (remove_dead dead s) x) = received (sockets s x)"
  "write_throws (sockets (remove_dead dead s) x) = write_throws (sockets s x)"
  "destroy_throws (sockets (remove_dead dead s) x) = destroy_throws (sockets s x)"
  by (induction dead arbitrary: s) (simp_all add: try_destroy_fields)

lemma remove_dead_destroyed:
  "destroyed (sockets (remove_dead dead s) x) =
     (destroyed (sockets s x) \<or> (x \<in> set dead \<and> \<not> destroy_throws (sockets s x)))"
  by (induction dead arbitrary: s) (auto simp: try_destroy_sockets try_destroy_fields)

lemma remove_dead_untouched:
  "x \<notin> set dead \<Longrightarrow> sockets (remove_dead dead s) x = sockets s x"
  by (induction dead arbitrary: s) (simp_all add: try_destroy_sockets)

lemma destroy_loop_frame:
  "tcpClients (destroy_loop cs s) = tcpClients s"
  "isOpen (destroy_loop cs s) = isOpen s"
  "exited (destroy_loop cs s) = exited s"
  "listeners (destroy_loop cs s) = listeners s"
  "cfg (destroy_loop cs s) = cfg s"
  by (induction cs arbitrary: s) (simp_all add: try_destroy_frame)

lemma destroy_loop_trace:
  "trace (destroy_loop cs s) = trace s @ map SocketDestroy cs"
  by (induction cs arbitrary: s) (simp_all add: try_destroy_frame)

lemma destroy_loop_fields:
  "received (sockets (destroy_loop cs s) x) = received (sockets s x)"
  "write_throws (sockets (destroy_loop cs s) x) = write_throws (sockets s x)"
  "destroy_throws (sockets (destroy_loop cs s) x) = destroy_throws (sockets s x)"
  by (induction cs arbitrary: s) (simp_all add: try_destroy_fields)

lemma destroy_loop_destroyed:
  "destroyed (sockets (destroy_loop cs s) x) =
     (destroyed (sockets s x) \<or> (x \<in> set cs \<and> \<not> destroy_throws (sockets s x)))"
  by (induction cs arbitrary: s) (auto simp: try_destroy_sockets try_destroy_fields)

text \<open>The whole \<open>data\<close> listener of the serial port.\<close>

lemma serial_on_data_eq:
  "serial_on_data data s =
     remove_dead (fst (write_loop data (tcpClients s) [] s))
       (snd (write_loop data (tcpClients s) [] s))"
  by (cases "tcpClients s") (simp_all add: serial_on_data_def split: prod.splits)

lemma serial_on_data_tcpClients:
  "tcpClients (serial_on_data data s) =
     filter (\<lambda>c. \<not> write_fails (sockets s) c) (tcpClients s)"
  by (simp add: serial_on_data_eq remove_dead_tcpClients write_loop_dead write_loop_frame
      cong: filter_cong)

lemma serial_on_data_trace:
  "trace (serial_on_data data s) =
     trace s @ concat (map (write_calls data (sockets s)) (tcpClients s))
       @ map SocketDestroy (filter (write_fails (sockets s)) (tcpClients s))"
  by (simp add: serial_on_data_eq remove_dead_trace write_loop_dead write_loop_trace)

lemma serial_on_data_frame:
  "isOpen (serial_on_data data s) = isOpen s"
  "exited (serial_on_data data s) = exited s"
  "listeners (serial_on_data data s) = listeners s"
  "cfg (serial_on_data data s) = cfg s"
  by (simp_all add: serial_on_data_eq remove_dead_frame write_loop_frame)

lemma serial_on_data_received_subset:
  "set (received (sockets (serial_on_data data s) c))
     \<subseteq> set (received (sockets s c)) \<union> {data}"
  using write_loop_received_subset [of data "tcpClients s" "[]" s c]
  by (simp add: serial_on_data_eq remove_dead_fields)

lemma serial_on_data_received:
  "distinct (tcpClients s) \<Longrightarrow>
   received (sockets (serial_on_data data s) c) =
     (if c \<in> set (tcpClients s) \<and> \<not> destroyed (sockets s c) \<and> write_throws (sockets s c) = None
      then received (sockets s c) @ [data] else received (sockets s c))"
  by (simp add: serial_on_data_eq remove_dead_fields write_loop_sockets)

lemma serial_on_data_destroyed:
  "destroyed (sockets (serial_on_data data s) c) =
     (destroyed (sockets s c)
      \<or> (c \<in> set (tcpClients s) \<and> write_fails (sockets s) c \<and> \<not> destroy_throws (sockets s c)))"
  by (auto simp: serial_on_data_eq remove_dead_destroyed write_loop_flags write_loop_dead)

subsection \<open>Shutdown and runs\<close>

lemma run_exited: "exited s \<noteq> None \<Longrightarrow> run evs s = s"
  by (induction evs) (simp_all add: step_def)

lemma process_on_SIGINT_trace:
  "trace (process_on_SIGINT s) =
     trace s @ [ConsoleLog (CHR 0x0A # ''Shutting down...''), SerialClose]
       @ map SocketDestroy (tcpClients s) @ [ServerClose, ProcessExit 0]"
  by (simp add: process_on_SIGINT_def process_exit_def emit_def destroy_loop_trace)

lemma process_on_SIGTERM_trace:
  "trace (process_on_SIGTERM s) =
     trace s @ [ConsoleLog (CHR 0x0A # ''Shutting down...''), SerialClose]
       @ map SocketDestroy (tcpClients s) @ [ServerClose, ProcessExit 0]"
  by (simp add: process_on_SIGTERM_def process_exit_def emit_def destroy_loop_trace)

lemma process_on_SIGINT_frame:
  "exited (process_on_SIGINT s) = Some 0"
  "tcpClients (process_on_SIGINT s) = tcpClients s"
  "received (sockets (process_on_SIGINT s) c) = received (sockets s c)"
  "destroyed (sockets (process_on_SIGINT s) c) =
     (destroyed (sockets s c) \<or> (c \<in> set (tcpClients s) \<and> \<not> destroy_throws (sockets s c)))"
  by (simp_all add: process_on_SIGINT_def process_exit_def emit_def destroy_loop_frame
      destroy_loop_fields destroy_loop_destroyed)

lemma process_on_SIGTERM_frame:
  "exited (process_on_SIGTERM s) = Some 0"
  "tcpClients (process_on_SIGTERM s) = tcpClients s"
  "received (sockets (process_on_SIGTERM s) c) = received (sockets s c)"
  "destroyed (sockets (process_on_SIGTERM s) c) =
     (destroyed (sockets s c) \<or> (c \<in> set (tcpClients s) \<and> \<not> destroy_throws (sockets s c)))"
  by (simp_all add: process_on_SIGTERM_def process_exit_def emit_def destroy_loop_frame
      destroy_loop_fields destroy_loop_destroyed)

lemma step_received_subset:
  "set (received (sockets (step ev s) c))
     \<subseteq> set (received (sockets s c)) \<union> {d. ev = OnSerialData d}"
proof (cases ev)
  case (OnSerialData d)
  then show ?thesis
    using serial_on_data_received_subset [of d s c] by (auto simp: step_def)
next
  case OnSIGINT
  then show ?thesis by (simp add: step_def process_on_SIGINT_frame)
next
  case OnSIGTERM
  then show ?thesis by (simp add: step_def process_on_SIGTERM_frame)
qed (auto simp: step_def serial_on_error_def serial_on_close_def serial_open_callback_def
      server_connection_def socket_on_data_def socket_on_error_def socket_on_close_def
      server_on_error_def server_listen_callback_def process_exit_def emit_def new_socket_def
      Let_def split: option.splits)

lemma run_received_subset:
  "set (received (sockets (run evs s) c))
     \<subseteq> set (received (sockets s c)) \<union> {d. OnSerialData d \<in> set evs}"
proof (induction evs arbitrary: s)
  case Nil
  then show ?case by auto
next
  case (Cons ev evs)
  show ?case
    using Cons.IH [of "step ev s"] step_received_subset [of ev s c] by auto
qed

lemma step_distinct: "distinct (tcpClients s) \<Longrightarrow> distinct (tcpClients (step ev s))"
proof (cases ev)
  case (OnSerialData d)
  assume "distinct (tcpClients s)"
  with OnSerialData show ?thesis by (simp add: step_def serial_on_data_tcpClients)
next
  case OnSIGINT
  assume "distinct (tcpClients s)"
  with OnSIGINT show ?thesis by (simp add: step_def process_on_SIGINT_frame)
next
  case OnSIGTERM
  assume "distinct (tcpClients s)"
  with OnSIGTERM show ?thesis by (simp add: step_def process_on_SIGTERM_frame)
qed (auto simp: step_def serial_on_error_def serial_on_close_def serial_open_callback_def
      server_connection_def socket_on_data_def socket_on_error_def socket_on_close_def
      server_on_error_def server_listen_callback_def process_exit_def emit_def
      set_add_def set_delete_def distinct_removeAll Let_def split: option.splits)

lemma reachable_distinct: "distinct (tcpClients (run evs (startup args)))"
proof -
  have "distinct (tcpClients s) \<Longrightarrow> distinct (tcpClients (run evs s))" for s
    by (induction evs arbitrary: s) (simp_all add: step_distinct)
  then show ?thesis by (simp add: startup_def)
qed

subsection \<open>The two scenarios, evaluated\<close>

lemmas scenario_defs = startup_def step_def server_connection_def serial_open_callback_def
  server_listen_callback_def emit_def set_add_def Let_def new_socket_def no_socket_def
  show_string_def show_port_def show_nat.simps

lemma two_clients_facts:
  "tcpClients two_clients = [11, 12]"
  "exited two_clients = None"
  "isOpen two_clients"
  "sockets two_clients 11 =
     \<lparr> remoteAddress = Some ''10.0.0.1'', remotePort = Some 40001, destroyed = False,
       write_throws = Some ''write EPIPE'', destroy_throws = True, received = [] \<rparr>"
  "sockets two_clients 12 =
     \<lparr> remoteAddress = Some ''10.0.0.2'', remotePort = Some 40002, destroyed = False,
       write_throws = None, destroy_throws = False, received = [] \<rparr>"
  "listeners two_clients 11 = Some ''10.0.0.1:40001''"
  by (simp_all add: two_clients_def scenario_defs)

lemma closed_client_facts:
  "tcpClients closed_client = [11]"
  "exited closed_client = None"
  "sockets closed_client 11 =
     \<lparr> remoteAddress = Some ''10.0.0.1'', remotePort = Some 40001, destroyed = True,
       write_throws = None, destroy_throws = False, received = [] \<rparr>"
  "trace closed_client =
     [ConsoleLog ''Starting Serial to TCP Bridge'',
      ConsoleLog ''Serial: /dev/ttyUSB0'',
      ConsoleLog ''TCP: 0.0.0.0:5000'',
      ConsoleLog ''TCP client connected: 10.0.0.1:40001'']"
  by (simp_all add: closed_client_def scenario_defs configure_def getArg_def parseInt_5000
      show_number_def)

subsection \<open>The claims\<close>

text \<open>
  C1, as the code has it. An error event of the TCP server, a failure to bind included,
  is reported on the console and nothing else happens: the listener does not end the
  process, no exit status is set, and the serial port, the client set and the sockets
  are as before. (Only the callback of the serial \<open>open\<close> ends the process.)
\<close>

theorem listener_error_only_reported:
  assumes "exited s = None"
  shows "step (OnServerError msg) s
           = s\<lparr>trace := trace s @ [ConsoleError (''TCP server error: '' @ msg)]\<rparr>
         \<and> exited (step (OnServerError msg) s) = None"
  using assms by (simp add: step_def server_on_error_def emit_def)

theorem listener_error_only_reported_witness:
  "exited (startup []) = None
   \<and> trace (step (OnServerError ''listen EACCES'') (startup []))
       = trace (startup []) @ [ConsoleError ''TCP server error: listen EACCES'']
   \<and> exited (step (OnServerError ''listen EACCES'') (startup [])) = None"
proof -
  have h: "exited (startup []) = None" by (simp add: startup_def)
  show ?thesis
    using listener_error_only_reported [OF h, of "''listen EACCES''"] h by simp
qed

text \<open>
  The claim as stated, that the process ends with a failure status, fails on a start-up
  bind error: the process is still running after the report.
\<close>

theorem listener_error_exit_counterexample:
  "exited (step (OnServerError ''listen EADDRINUSE: address already in use 0.0.0.0:5000'')
             (startup [])) = None
   \<and> trace (step (OnServerError ''listen EADDRINUSE: address already in use 0.0.0.0:5000'')
              (startup []))
       = [ConsoleLog ''Starting Serial to TCP Bridge'',
          ConsoleLog ''Serial: /dev/ttyUSB0'',
          ConsoleLog ''TCP: 0.0.0.0:5000'',
          ConsoleError ''TCP server error: listen EADDRINUSE: address already in use 0.0.0.0:5000'']"
  by (simp add: step_def startup_def server_on_error_def emit_def configure_def getArg_def
      parseInt_5000 show_number_def show_nat.simps)

text \<open>
  C2, as the code has it. In every pass of the \<open>data\<close> listener of the serial port, the
  clients marked dead are those that are not destroyed and whose \<open>write\<close> throws: after
  the loop each of them is removed from the client set and \<open>destroy\<close> is called on it. A
  client that is already destroyed is skipped: nothing is written to it, it is not
  marked dead, \<open>destroy\<close> is not called on it and it stays in the client set (its
  \<open>close\<close> listener removes it).
\<close>

theorem fanout_removes_failed_writers:
  "tcpClients (serial_on_data data s)
     = filter (\<lambda>c. \<not> write_fails (sockets s) c) (tcpClients s)
   \<and> trace (serial_on_data data s)
     = trace s @ concat (map (write_calls data (sockets s)) (tcpClients s))
         @ map SocketDestroy (filter (write_fails (sockets s)) (tcpClients s))
   \<and> (\<forall>c \<in> set (tcpClients s).
         \<not> destroyed (sockets s c) \<and> write_throws (sockets s c) \<noteq> None \<longrightarrow>
           c \<notin> set (tcpClients (serial_on_data data s))
           \<and> SocketDestroy c \<in> set (drop (length (trace s)) (trace (serial_on_data data s)))
           \<and> (\<not> destroy_throws (sockets s c) \<longrightarrow> destroyed (sockets (serial_on_data data s) c)))
   \<and> (\<forall>c \<in> set (tcpClients s).
         destroyed (sockets s c) \<longrightarrow>
           c \<in> set (tcpClients (serial_on_data data s))
           \<and> SocketWrite c data \<notin> set (drop (length (trace s)) (trace (serial_on_data data s)))
           \<and> SocketDestroy c \<notin> set (drop (length (trace s)) (trace (serial_on_data data s))))"
proof -
  have noW: "SocketWrite c data \<in> set (write_calls data (sockets s) x) \<Longrightarrow> \<not> destroyed (sockets s c)"
    for c x
    by (auto simp: write_calls_def split: if_splits option.splits)
  have noD: "SocketDestroy c \<notin> set (write_calls data (sockets s) x)" for c x
    by (auto simp: write_calls_def split: if_splits option.splits)
  show ?thesis
    by (auto simp: serial_on_data_tcpClients serial_on_data_trace serial_on_data_destroyed
        write_fails_def noD dest: noW)
qed

theorem fanout_removes_failed_writers_witness:
  "11 \<in> set (tcpClients two_clients)
   \<and> \<not> destroyed (sockets two_clients 11) \<and> write_throws (sockets two_clients 11) \<noteq> None
   \<and> 11 \<notin> set (tcpClients (serial_on_data [1, 2, 3] two_clients))
   \<and> SocketDestroy 11
       \<in> set (drop (length (trace two_clients)) (trace (serial_on_data [1, 2, 3] two_clients)))
   \<and> 11 \<in> set (tcpClients closed_client) \<and> destroyed (sockets closed_client 11)
   \<and> 11 \<in> set (tcpClients (serial_on_data [1, 2, 3] closed_client))"
proof -
  have a: "11 \<in> set (tcpClients two_clients)" by (simp add: two_clients_facts)
  have b: "\<not> destroyed (sockets two_clients 11) \<and> write_throws (sockets two_clients 11) \<noteq> None"
    by (simp add: two_clients_facts)
  have c: "11 \<in> set (tcpClients closed_client)" by (simp add: closed_client_facts)
  have d: "destroyed (sockets closed_client 11)" by (simp add: closed_client_facts)
  show ?thesis
    using fanout_removes_failed_writers [of "[1, 2, 3]" two_clients]
      fanout_removes_failed_writers [of "[1, 2, 3]" closed_client] a b c d
    by blast
qed

text \<open>
  The claim as stated, that a destroyed client is marked dead and removed by the pass,
  fails: the destroyed client is still in the set after the pass, and \<open>destroy\<close> was
  not called.
\<close>

theorem fanout_destroyed_client_counterexample:
  "11 \<in> set (tcpClients closed_client) \<and> destroyed (sockets closed_client 11)
   \<and> tcpClients (step (OnSerialData [1, 2, 3]) closed_client) = [11]
   \<and> SocketDestroy 11 \<notin> set (trace (step (OnSerialData [1, 2, 3]) closed_client))"
  by (simp add: step_def closed_client_facts serial_on_data_tcpClients serial_on_data_trace
      write_fails_def write_calls_def)

text \<open>
  C3. In a pass over a client set that holds a client \<open>A\<close> whose \<open>write\<close> throws and a
  healthy client \<open>B\<close> (not destroyed, \<open>write\<close> returns), \<open>B\<close> is written the chunk,
  once, in that pass, and stays in the client set, not destroyed; \<open>A\<close> is not in the client
  set after the pass and has received nothing. The client set is a \<open>Set\<close>: no identity
  occurs twice in it (\<open>reachable_distinct\<close>).
\<close>

theorem fanout_isolation:
  assumes "distinct (tcpClients s)"
    and "A \<in> set (tcpClients s)" and "B \<in> set (tcpClients s)"
    and "\<not> destroyed (sockets s A)" and "write_throws (sockets s A) = Some msg"
    and "\<not> destroyed (sockets s B)" and "write_throws (sockets s B) = None"
  shows "received (sockets (serial_on_data data s) B) = received (sockets s B) @ [data]
         \<and> SocketWrite B data \<in> set (drop (length (trace s)) (trace (serial_on_data data s)))
         \<and> B \<in> set (tcpClients (serial_on_data data s))
         \<and> \<not> destroyed (sockets (serial_on_data data s) B)
         \<and> A \<notin> set (tcpClients (serial_on_data data s))
         \<and> received (sockets (serial_on_data data s) A) = received (sockets s A)"
proof -
  have "SocketWrite B data \<in> set (write_calls data (sockets s) B)"
    using assms(6,7) by (simp add: write_calls_def)
  then have "SocketWrite B data \<in> set (concat (map (write_calls data (sockets s)) (tcpClients s)))"
    using assms(3) by auto
  then show ?thesis
    using assms
    by (simp add: serial_on_data_received serial_on_data_tcpClients serial_on_data_trace
        serial_on_data_destroyed write_fails_def)
qed

theorem fanout_isolation_witness:
  "distinct (tcpClients two_clients)
   \<and> 11 \<in> set (tcpClients two_clients) \<and> 12 \<in> set (tcpClients two_clients)
   \<and> \<not> destroyed (sockets two_clients 11)
   \<and> write_throws (sockets two_clients 11) = Some ''write EPIPE''
   \<and> \<not> destroyed (sockets two_clients 12) \<and> write_throws (sockets two_clients 12) = None
   \<and> received (sockets (serial_on_data [1, 2, 3] two_clients) 12)
       = received (sockets two_clients 12) @ [[1, 2, 3]]
   \<and> 12 \<in> set (tcpClients (serial_on_data [1, 2, 3] two_clients))
   \<and> 11 \<notin> set (tcpClients (serial_on_data [1, 2, 3] two_clients))"
proof -
  have h1: "distinct (tcpClients two_clients)" by (simp add: two_clients_facts)
  have h2: "11 \<in> set (tcpClients two_clients)" by (simp add: two_clients_facts)
  have h3: "12 \<in> set (tcpClients two_clients)" by (simp add: two_clients_facts)
  have h4: "\<not> destroyed (sockets two_clients 11)" by (simp add: two_clients_facts)
  have h5: "write_throws (sockets two_clients 11) = Some ''write EPIPE''" by (simp add: two_clients_facts)
  have h6: "\<not> destroyed (sockets two_clients 12)" by (simp add: two_clients_facts)
  have h7: "write_throws (sockets two_clients 12) = None" by (simp add: two_clients_facts)
  show ?thesis
    using fanout_isolation [OF h1 h2 h3 h4 h5 h6 h7, of "[1, 2, 3]"] h1 h2 h3 h4 h5 h6 h7
    by blast
qed

text \<open>
  C4. A chunk that arrives from the serial port while the client set is empty changes
  nothing: no call is made, the client set and every other part of the state are as
  before. So whatever happens afterwards happens as if the chunk had never arrived, and
  no socket, connected before or after, ever receives that chunk unless a later serial
  event carries an equal one.
\<close>

theorem empty_set_discards_chunk:
  assumes "tcpClients s = []"
  shows "serial_on_data data s = s
         \<and> step (OnSerialData data) s = s
         \<and> (\<forall>evs. run evs (step (OnSerialData data) s) = run evs s)
         \<and> (\<forall>evs c. OnSerialData data \<notin> set evs \<and> data \<notin> set (received (sockets s c)) \<longrightarrow>
                data \<notin> set (received (sockets (run evs (step (OnSerialData data) s)) c)))"
proof -
  have a: "serial_on_data data s = s" using assms by (simp add: serial_on_data_def)
  then have b: "step (OnSerialData data) s = s" by (simp add: step_def)
  have "data \<notin> set (received (sockets (run evs s) c))"
    if "OnSerialData data \<notin> set evs" "data \<notin> set (received (sockets s c))" for evs c
    using run_received_subset [of evs s c] that by auto
  with a b show ?thesis by simp
qed

theorem empty_set_discards_chunk_witness:
  "tcpClients (startup []) = []
   \<and> step (OnSerialData [1, 2, 3]) (startup []) = startup []
   \<and> OnSerialData [1, 2, 3]
       \<notin> set [SocketCreated 11 ''10.0.0.1'' 40001, OnConnection 11, OnSerialData [255]]
   \<and> [1, 2, 3] \<notin> set (received (sockets (startup []) 11))
   \<and> [1, 2, 3] \<notin> set (received (sockets
         (run [SocketCreated 11 ''10.0.0.1'' 40001, OnConnection 11, OnSerialData [255]]
            (step (OnSerialData [1, 2, 3]) (startup []))) 11))"
proof -
  have h: "tcpClients (startup []) = []" by (simp add: startup_def)
  have e: "OnSerialData [1, 2, 3]
       \<notin> set [SocketCreated 11 ''10.0.0.1'' 40001, OnConnection 11, OnSerialData [255]]"
    by simp
  have r: "[1, 2, 3] \<notin> set (received (sockets (startup []) 11))"
    by (simp add: startup_def no_socket_def)
  show ?thesis
    using empty_set_discards_chunk [OF h, of "[1, 2, 3]"] h e r by blast
qed

text \<open>
  C5. On a \<open>data\<close> event of a client socket while the serial port is not open, the
  listener prints a warning and does nothing else: the bytes go nowhere, nothing is
  thrown, the socket is not destroyed and the client set is unchanged. While the serial
  port is open the same bytes are passed to its \<open>write\<close>.
\<close>

theorem socket_data_forwarded_or_dropped:
  assumes "exited s = None" and "listeners s c = Some clientAddr"
  shows "step (OnSocketData c data) s =
           (if isOpen s then s\<lparr>trace := trace s @ [SerialWrite data]\<rparr>
            else s\<lparr>trace := trace s @ [ConsoleWarn ''Serial port not open, dropping TCP data'']\<rparr>)
         \<and> tcpClients (step (OnSocketData c data) s) = tcpClients s
         \<and> sockets (step (OnSocketData c data) s) = sockets s
         \<and> exited (step (OnSocketData c data) s) = None"
  using assms by (simp add: step_def socket_on_data_def emit_def)

theorem socket_data_forwarded_or_dropped_witness:
  "exited two_clients = None \<and> listeners two_clients 11 = Some ''10.0.0.1:40001''
   \<and> isOpen two_clients
   \<and> trace (step (OnSocketData 11 [16, 32]) two_clients)
       = trace two_clients @ [SerialWrite [16, 32]]
   \<and> \<not> isOpen (step (SerialChanged False) two_clients)
   \<and> trace (step (OnSocketData 11 [16, 32]) (step (SerialChanged False) two_clients))
       = trace two_clients @ [ConsoleWarn ''Serial port not open, dropping TCP data'']
   \<and> tcpClients (step (OnSocketData 11 [16, 32]) (step (SerialChanged False) two_clients))
       = [11, 12]"
proof -
  have h1: "exited two_clients = None" by (simp add: two_clients_facts)
  have h2: "listeners two_clients 11 = Some ''10.0.0.1:40001''" by (simp add: two_clients_facts)
  have c: "step (SerialChanged False) two_clients = two_clients\<lparr>isOpen := False\<rparr>"
    by (simp add: step_def h1)
  have h3: "exited (two_clients\<lparr>isOpen := False\<rparr>) = None" by (simp add: h1)
  have h4: "listeners (two_clients\<lparr>isOpen := False\<rparr>) 11 = Some ''10.0.0.1:40001''"
    by (simp add: h2)
  show ?thesis
    using socket_data_forwarded_or_dropped [OF h1 h2, of "[16, 32]"]
      socket_data_forwarded_or_dropped [OF h3 h4, of "[16, 32]"]
    by (simp add: c two_clients_facts)
qed

text \<open>
  C6. When opening the serial port fails, the error is reported and the process exits with
  status 1, after which no listener runs; when it succeeds, the open is reported and the
  process goes on.
\<close>

theorem serial_open_result:
  assumes "exited s = None"
  shows "step (OnSerialOpen (Some msg)) s
           = s\<lparr>trace := trace s @ [ConsoleError (''Failed to open serial port: '' @ msg),
                                     ProcessExit 1],
                exited := Some 1\<rparr>
         \<and> (\<forall>evs. run evs (step (OnSerialOpen (Some msg)) s) = step (OnSerialOpen (Some msg)) s)
         \<and> step (OnSerialOpen None) s
           = s\<lparr>trace := trace s @ [ConsoleLog (''Serial port opened: '' @ serialPort (cfg s))]\<rparr>
         \<and> exited (step (OnSerialOpen None) s) = None"
proof -
  have a: "step (OnSerialOpen (Some msg)) s
           = s\<lparr>trace := trace s @ [ConsoleError (''Failed to open serial port: '' @ msg),
                                     ProcessExit 1],
                exited := Some 1\<rparr>"
    using assms by (simp add: step_def serial_open_callback_def process_exit_def emit_def)
  have "exited (step (OnSerialOpen (Some msg)) s) \<noteq> None" by (simp add: a)
  then have b: "run evs (step (OnSerialOpen (Some msg)) s) = step (OnSerialOpen (Some msg)) s" for evs
    by (rule run_exited)
  have c: "step (OnSerialOpen None) s
           = s\<lparr>trace := trace s @ [ConsoleLog (''Serial port opened: '' @ serialPort (cfg s))]\<rparr>"
    using assms by (simp add: step_def serial_open_callback_def emit_def)
  show ?thesis using a b c assms by simp
qed

theorem serial_open_result_witness:
  "exited (startup []) = None
   \<and> exited (step (OnSerialOpen (Some ''No such file or directory'')) (startup [])) = Some 1
   \<and> (1::int) \<noteq> 0
   \<and> run [OnSerialData [1], OnSIGINT]
         (step (OnSerialOpen (Some ''No such file or directory'')) (startup []))
       = step (OnSerialOpen (Some ''No such file or directory'')) (startup [])
   \<and> exited (step (OnSerialOpen None) (startup [])) = None
   \<and> trace (step (OnSerialOpen None) (startup []))
       = trace (startup []) @ [ConsoleLog ''Serial port opened: /dev/ttyUSB0'']"
proof -
  have h: "exited (startup []) = None" by (simp add: startup_def)
  have p: "serialPort (cfg (startup [])) = ''/dev/ttyUSB0''"
    by (simp add: startup_def configure_def getArg_def)
  note r = serial_open_result [OF h, of "''No such file or directory''"]
  from r have stop:
    "run [OnSerialData [1], OnSIGINT]
         (step (OnSerialOpen (Some ''No such file or directory'')) (startup []))
       = step (OnSerialOpen (Some ''No such file or directory'')) (startup [])"
    by blast
  show ?thesis
    using r stop h p by simp
qed

lemma with_destroy_errors_fields:
  "tcpClients (with_destroy_errors f s) = tcpClients s"
  "trace (with_destroy_errors f s) = trace s"
  "exited (with_destroy_errors f s) = exited s"
  "write_fails (sockets (with_destroy_errors f s)) = write_fails (sockets s)"
  "write_calls data (sockets (with_destroy_errors f s)) = write_calls data (sockets s)"
  by (simp_all add: with_destroy_errors_def write_fails_def write_calls_def fun_eq_iff)

text \<open>
  C7. An error thrown by \<open>destroy\<close>, in the clean-up of a pass or in the shutdown, is
  swallowed: whichever sockets throw on \<open>destroy\<close>, the calls made (console lines
  included), the client set and the exit status are those of the state given. In the
  pass \<open>destroy\<close> is still called on every dead client, and in the shutdown on every client,
  followed by the close of the server and the exit with status 0.
\<close>

theorem destroy_errors_swallowed:
  "trace (serial_on_data data (with_destroy_errors f s)) = trace (serial_on_data data s)
   \<and> tcpClients (serial_on_data data (with_destroy_errors f s)) = tcpClients (serial_on_data data s)
   \<and> exited (serial_on_data data (with_destroy_errors f s)) = exited s
   \<and> filter is_destroy
        (drop (length (trace s)) (trace (serial_on_data data (with_destroy_errors f s))))
       = map SocketDestroy (filter (write_fails (sockets s)) (tcpClients s))
   \<and> trace (process_on_SIGINT (with_destroy_errors f s)) = trace (process_on_SIGINT s)
   \<and> trace (process_on_SIGINT (with_destroy_errors f s))
       = trace s @ [ConsoleLog (CHR 0x0A # ''Shutting down...''), SerialClose]
           @ map SocketDestroy (tcpClients s) @ [ServerClose, ProcessExit 0]
   \<and> exited (process_on_SIGINT (with_destroy_errors f s)) = Some 0
   \<and> trace (process_on_SIGTERM (with_destroy_errors f s)) = trace (process_on_SIGTERM s)
   \<and> trace (process_on_SIGTERM (with_destroy_errors f s))
       = trace s @ [ConsoleLog (CHR 0x0A # ''Shutting down...''), SerialClose]
           @ map SocketDestroy (tcpClients s) @ [ServerClose, ProcessExit 0]
   \<and> exited (process_on_SIGTERM (with_destroy_errors f s)) = Some 0"
proof -
  have noD: "filter is_destroy (concat (map (write_calls data (sockets s)) cs)) = []" for cs
    by (induction cs) (auto simp: write_calls_def is_destroy_def split: option.splits)
  have allD: "filter is_destroy (map SocketDestroy cs) = map SocketDestroy cs" for cs
    by (induction cs) (simp_all add: is_destroy_def)
  show ?thesis
    by (simp add: serial_on_data_trace serial_on_data_tcpClients serial_on_data_frame
        with_destroy_errors_fields process_on_SIGINT_trace process_on_SIGTERM_trace
        process_on_SIGINT_frame process_on_SIGTERM_frame noD allD)
qed

theorem destroy_errors_swallowed_witness:
  "destroy_throws (sockets two_clients 11)
   \<and> trace (serial_on_data [1, 2, 3] two_clients)
       = trace (serial_on_data [1, 2, 3] (with_destroy_errors (\<lambda>c. False) two_clients))
   \<and> tcpClients (serial_on_data [1, 2, 3] two_clients) = [12]
   \<and> exited (process_on_SIGINT two_clients) = Some 0
   \<and> trace (process_on_SIGTERM two_clients)
       = trace two_clients @ [ConsoleLog (CHR 0x0A # ''Shutting down...''), SerialClose,
            SocketDestroy 11, SocketDestroy 12, ServerClose, ProcessExit 0]"
proof -
  have same: "with_destroy_errors (\<lambda>c. destroy_throws (sockets two_clients c)) two_clients
               = two_clients"
    by (simp add: with_destroy_errors_def)
  have t: "tcpClients (serial_on_data [1, 2, 3] two_clients) = [12]"
    by (simp add: serial_on_data_tcpClients two_clients_facts write_fails_def)
  show ?thesis
    using destroy_errors_swallowed [of "[1, 2, 3]" "\<lambda>c. False" two_clients]
      destroy_errors_swallowed
        [of "[1, 2, 3]" "\<lambda>c. destroy_throws (sockets two_clients c)" two_clients]
    by (simp add: same t two_clients_facts)
qed

text \<open>
  C8. On \<open>SIGINT\<close> and on \<open>SIGTERM\<close> the listener announces the shutdown, closes the
  serial port, calls \<open>destroy\<close> on every client in the client set, in order, whether or
  not a call throws, closes the server and exits with status 0, all in one turn: nothing
  is awaited between the calls, and no listener runs afterwards.
\<close>

theorem shutdown_teardown_order:
  assumes "exited s = None" and "ev = OnSIGINT \<or> ev = OnSIGTERM"
  shows "trace (step ev s)
           = trace s @ [ConsoleLog (CHR 0x0A # ''Shutting down...''), SerialClose]
               @ map SocketDestroy (tcpClients s) @ [ServerClose, ProcessExit 0]
         \<and> exited (step ev s) = Some 0
         \<and> (\<forall>c. destroyed (sockets (step ev s) c)
                  = (destroyed (sockets s c)
                     \<or> (c \<in> set (tcpClients s) \<and> \<not> destroy_throws (sockets s c))))
         \<and> (\<forall>evs. run evs (step ev s) = step ev s)"
proof -
  have ex: "exited (step ev s) = Some 0"
    using assms by (auto simp: step_def process_on_SIGINT_frame process_on_SIGTERM_frame)
  then have "exited (step ev s) \<noteq> None" by simp
  then have stop: "run evs (step ev s) = step ev s" for evs
    by (rule run_exited)
  show ?thesis
    using assms ex stop
    by (auto simp: step_def process_on_SIGINT_trace process_on_SIGTERM_trace
        process_on_SIGINT_frame process_on_SIGTERM_frame)
qed

theorem shutdown_teardown_order_witness:
  "exited two_clients = None
   \<and> trace (step OnSIGINT two_clients)
       = trace two_clients @ [ConsoleLog (CHR 0x0A # ''Shutting down...''), SerialClose,
            SocketDestroy 11, SocketDestroy 12, ServerClose, ProcessExit 0]
   \<and> exited (step OnSIGINT two_clients) = Some 0
   \<and> exited (step OnSIGTERM two_clients) = Some 0
   \<and> \<not> destroyed (sockets (step OnSIGTERM two_clients) 11)
   \<and> destroyed (sockets (step OnSIGTERM two_clients) 12)
   \<and> run [OnSIGTERM, OnSerialData [1]] (step OnSIGINT two_clients) = step OnSIGINT two_clients"
proof -
  have h: "exited two_clients = None" by (simp add: two_clients_facts)
  note a = shutdown_teardown_order [OF h, of OnSIGINT]
  note b = shutdown_teardown_order [OF h, of OnSIGTERM]
  from a have stop:
    "run [OnSIGTERM, OnSerialData [1]] (step OnSIGINT two_clients) = step OnSIGINT two_clients"
    by blast
  show ?thesis
    using a b stop by (simp add: two_clients_facts)
qed





end
